theory Spec2Isabelle
  imports Complex_Main "HOL-Library.AList"
begin

section \<open>Value serializer\<close>

text \<open>
  Both clients (the Node one and the browser one) carry the same \<open>serializeValue\<close>; the
  browser copy has one more rule, for DOM elements.

  A runtime value is either a primitive or a reference to an object on the heap. Object
  identity matters (the \<open>seen\<close> set is a WeakSet of objects, and a graph may be cyclic),
  so arrays and plain objects are addresses into a heap, and \<open>seen\<close> is a set of addresses.
  An error object is modelled by its three fields read by the serializer, a valid date
  by its ISO string, a function by its name, a DOM element by its tag name and id.
  String length counts code units, as \<open>value.length\<close> does; numbers pass through
  the serializer unchanged and are modelled as rationals.
  The four limits of \<open>logCaptureOptions\<close> are non-negative integers.
\<close>

datatype jsval =
    VNull
  | VUndefined
  | VNum rat
  | VBool bool
  | VBigInt int
  | VSymbol string
  | VStr string
  | VFunction string
  | VError string string string
  | VDate string
  | VElement string string
  | VRef nat

datatype jsobj = JArray "jsval list" | JObject "(string \<times> jsval) list"

type_synonym heap = "nat \<Rightarrow> jsobj"

datatype sval =
    SNull
  | SUndefined
  | SNum rat
  | SBool bool
  | SStr string
  | SArr "sval list"
  | SObj "(string \<times> sval) list"

record options =
  maxDepth :: nat
  maxProps :: nat
  maxArray :: nat
  maxStringLength :: nat

definition DEFAULTS :: options where
  "DEFAULTS = \<lparr> maxDepth = 4, maxProps = 50, maxArray = 50, maxStringLength = 2000 \<rparr>"

text \<open>Decimal rendering of the counts interpolated into the marker strings.\<close>

definition digit :: "nat \<Rightarrow> char" where
  "digit n = ''0123456789'' ! n"

fun showNat :: "nat \<Rightarrow> string" where
  "showNat n = (if n < 10 then [digit n] else showNat (n div 10) @ [digit (n mod 10)])"

declare showNat.simps [simp del]

definition showInt :: "int \<Rightarrow> string" where
  "showInt i = (if i < 0 then CHR ''-'' # showNat (nat (- i)) else showNat (nat i))"

definition lowerChar :: "char \<Rightarrow> char" where
  "lowerChar c =
     (case map_of (zip ''ABCDEFGHIJKLMNOPQRSTUVWXYZ'' ''abcdefghijklmnopqrstuvwxyz'') c of
        Some l \<Rightarrow> l
      | None \<Rightarrow> c)"

definition toLowerCase :: "string \<Rightarrow> string" where
  "toLowerCase s = map lowerChar s"

text \<open>
  \<open>serializeValue value options depth seen\<close>. The WeakSet is mutated in place by
  \<open>seen.add(value)\<close> and shared by all recursive calls, so the model threads it through:
  every function returns the set as it is when the call returns. The two \<open>for\<close> loops
  are \<open>serializeItems\<close> (pushing onto \<open>arr\<close>) and \<open>serializeProps\<close> (assigning
  \<open>obj[key]\<close>); both run over the first \<open>limit\<close> elements or keys.
  The recursion terminates because \<open>depth\<close> grows by one per level and stops at
  \<open>maxDepth\<close>, and each loop runs over a finite list.
\<close>

function serializeValue :: "heap \<Rightarrow> options \<Rightarrow> jsval \<Rightarrow> nat \<Rightarrow> nat set \<Rightarrow> sval \<times> nat set"
  and serializeItems ::
    "heap \<Rightarrow> options \<Rightarrow> jsval list \<Rightarrow> nat \<Rightarrow> nat set \<Rightarrow> sval list \<Rightarrow> sval list \<times> nat set"
  and serializeProps ::
    "heap \<Rightarrow> options \<Rightarrow> (string \<times> jsval) list \<Rightarrow> nat \<Rightarrow> nat set \<Rightarrow> (string \<times> sval) list
       \<Rightarrow> (string \<times> sval) list \<times> nat set"
where
  "serializeValue h opts VNull depth seen = (SNull, seen)"
| "serializeValue h opts VUndefined depth seen = (SUndefined, seen)"
| "serializeValue h opts (VNum n) depth seen = (SNum n, seen)"
| "serializeValue h opts (VBool b) depth seen = (SBool b, seen)"
| "serializeValue h opts (VBigInt i) depth seen = (SStr (showInt i), seen)"
| "serializeValue h opts (VSymbol d) depth seen = (SStr (''Symbol('' @ d @ '')''), seen)"
| "serializeValue h opts (VStr s) depth seen =
     (if length s > maxStringLength opts
      then (SStr (take (maxStringLength opts) s @ ''...''), seen)
      else (SStr s, seen))"
| "serializeValue h opts (VFunction name) depth seen =
     (SStr (''[Function '' @ (if name \<noteq> [] then name else ''anonymous'') @ '']''), seen)"
| "serializeValue h opts (VError name message stack) depth seen =
     (SObj [(''name'', SStr name), (''message'', SStr message), (''stack'', SStr stack)], seen)"
| "serializeValue h opts (VDate isoString) depth seen = (SStr isoString, seen)"
| "serializeValue h opts (VElement tagName ident) depth seen =
     (SStr (''<'' @ toLowerCase tagName @ (if ident \<noteq> [] then ''#'' @ ident else []) @ ''>''),
      seen)"
| "serializeValue h opts (VRef a) depth seen =
     (if a \<in> seen then (SStr ''[Circular]'', seen)
      else if depth \<ge> maxDepth opts then
        (case h a of
           JArray vs \<Rightarrow> (SStr (''[Array('' @ showNat (length vs) @ '')]''), seen)
         | JObject ps \<Rightarrow> (SStr ''[Object]'', seen))
      else
        (case h a of
           JArray vs \<Rightarrow>
             (let limit = min (length vs) (maxArray opts) in
              case serializeItems h opts (take limit vs) (depth + 1) (insert a seen) [] of
                (arr, seen') \<Rightarrow>
                  (SArr (if length vs > limit
                         then arr @ [SStr (''... ('' @ showNat (length vs - limit) @ '' more)'')]
                         else arr), seen'))
         | JObject ps \<Rightarrow>
             (let limit = min (length ps) (maxProps opts) in
              case serializeProps h opts (take limit ps) (depth + 1) (insert a seen) [] of
                (obj, seen') \<Rightarrow>
                  (SObj (if length ps > limit
                         then AList.update ''__truncated__''
                                (SStr (showNat (length ps - limit) @ '' more keys'')) obj
                         else obj), seen'))))"
| "serializeItems h opts [] d seen arr = (arr, seen)"
| "serializeItems h opts (v # vs) d seen arr =
     (case serializeValue h opts v d seen of
        (r, seen') \<Rightarrow> serializeItems h opts vs d seen' (arr @ [r]))"
| "serializeProps h opts [] d seen obj = (obj, seen)"
| "serializeProps h opts ((key, v) # ps) d seen obj =
     (case serializeValue h opts v d seen of
        (r, seen') \<Rightarrow> serializeProps h opts ps d seen' (AList.update key r obj))"
  by pat_completeness auto
termination
  by (relation "inv_image (less_than <*lex*> less_than)
        (\<lambda>x. case x of
           Inl (h, opts, v, depth, seen) \<Rightarrow> (2 * (maxDepth opts - depth), 0)
         | Inr (Inl (h, opts, vs, d, seen, arr)) \<Rightarrow> (2 * (maxDepth opts - d) + 1, length vs)
         | Inr (Inr (h, opts, ps, d, seen, obj)) \<Rightarrow> (2 * (maxDepth opts - d) + 1, length ps))")
     auto

text \<open>\<open>serializeValues\<close> starts every top-level value at depth 0 with a fresh set.\<close>

definition serializeValues :: "heap \<Rightarrow> options \<Rightarrow> jsval list \<Rightarrow> sval list" where
  "serializeValues h opts vals = map (\<lambda>v. fst (serializeValue h opts v 0 {})) vals"










section \<open>Transport client\<close>

text \<open>
  The client keeps one module-wide \<open>state\<close>: the current socket \<open>ws\<close>, the outbound
  \<open>queue\<close>, and the flags \<open>connected\<close> and \<open>installed\<close>. The model adds what the
  runtime holds for it: every socket constructed so far with its \<open>readyState\<close> (a socket
  is named by its index; the length of the list is the number of connection attempts),
  the number of pending reconnect timers, and the frames handed to a socket's \<open>send\<close>.
  Execution is single-threaded: each exported function and each event handler runs to
  completion, so each is a function from state to state.
\<close>

datatype readyState = CONNECTING | OPEN | CLOSING | CLOSED

datatype 'm frame = Hello | Msg 'm

record 'm client =
  ws :: "nat option"
  queue :: "'m frame list"
  connected :: bool
  installed :: bool
  sockets :: "readyState list"
  timers :: nat
  wire :: "(nat \<times> 'm frame) list"

definition initial :: "'m client" where
  "initial = \<lparr> ws = None, queue = [], connected = False, installed = False,
                sockets = [], timers = 0, wire = [] \<rparr>"

definition install :: "'m client \<Rightarrow> 'm client" where
  "install s = (if installed s then s else s\<lparr>installed := True\<rparr>)"

text \<open>\<open>connect\<close>: nothing if a socket is held, else construct one and hold it.\<close>

definition connect :: "'m client \<Rightarrow> 'm client" where
  "connect s =
     (if ws s \<noteq> None then s
      else s\<lparr>sockets := sockets s @ [CONNECTING], ws := Some (length (sockets s))\<rparr>)"

definition start :: "'m client \<Rightarrow> 'm client" where
  "start s = connect (install s)"

text \<open>\<open>ws.close()\<close> starts the closing handshake of a socket that is not yet closing.\<close>

definition closeSocket :: "nat \<Rightarrow> readyState list \<Rightarrow> readyState list" where
  "closeSocket w socks =
     (if w < length socks \<and> (socks ! w = CONNECTING \<or> socks ! w = OPEN)
      then socks[w := CLOSING] else socks)"

definition stop :: "'m client \<Rightarrow> 'm client" where
  "stop s =
     (case ws s of
        Some w \<Rightarrow> s\<lparr>sockets := closeSocket w (sockets s), ws := None\<rparr>
      | None \<Rightarrow> s)"

text \<open>
  \<open>retryConnect\<close> arms one timer; \<open>timerFire\<close> is its callback running. No timer
  is ever cancelled.
\<close>

definition retryConnect :: "'m client \<Rightarrow> 'm client" where
  "retryConnect s = s\<lparr>timers := timers s + 1\<rparr>"

definition timerFire :: "'m client \<Rightarrow> 'm client" where
  "timerFire s =
     (let s1 = s\<lparr>timers := timers s - 1\<rparr>
      in if ws s1 = None then connect s1 else s1)"

text \<open>
  \<open>send\<close> queues the frame unless the client is connected and the held socket is open.
  A frame is an object, so the guard on a falsy payload never applies.
\<close>

definition send :: "'m frame \<Rightarrow> 'm client \<Rightarrow> 'm client" where
  "send payload s =
     (case ws s of
        None \<Rightarrow> s\<lparr>queue := queue s @ [payload]\<rparr>
      | Some w \<Rightarrow>
          if \<not> connected s \<or> \<not> (w < length (sockets s) \<and> sockets s ! w = OPEN)
          then s\<lparr>queue := queue s @ [payload]\<rparr>
          else s\<lparr>wire := wire s @ [(w, payload)]\<rparr>)"

text \<open>
  \<open>flushQueue\<close> is a \<open>while\<close> loop that may not end (a frame that \<open>send\<close> puts back
  on the queue is taken off again), so it returns \<open>None\<close> when it does not return.
\<close>

partial_function (option) flushQueue :: "'m client \<Rightarrow> 'm client option" where
  "flushQueue s =
     (case queue s of
        [] \<Rightarrow> Some s
      | payload # rest \<Rightarrow> flushQueue (send payload (s\<lparr>queue := rest\<rparr>)))"

text \<open>
  The handlers registered in \<open>connect\<close> on socket \<open>w\<close>. They stay registered for
  the life of the socket and write to the shared state, whichever socket is held by then.
  The \<open>message\<close> handler only merges configuration and is left out.
\<close>

definition onOpen :: "nat \<Rightarrow> 'm client \<Rightarrow> 'm client option" where
  "onOpen w s =
     (case flushQueue (s\<lparr>sockets := (sockets s)[w := OPEN], connected := True\<rparr>) of
        None \<Rightarrow> None
      | Some s1 \<Rightarrow> Some (send Hello s1))"

definition onClose :: "nat \<Rightarrow> 'm client \<Rightarrow> 'm client" where
  "onClose w s =
     retryConnect (s\<lparr>sockets := (sockets s)[w := CLOSED], connected := False, ws := None\<rparr>)"

definition onError :: "nat \<Rightarrow> 'm client \<Rightarrow> 'm client" where
  "onError w s = s\<lparr>connected := False\<rparr>"

text \<open>
  What can happen to a client: a call of an exported function, or an event delivered by
  the runtime. A socket opens only while connecting and closes at most once; a timer
  fires only if one is pending.
\<close>

datatype 'm event =
    Start | Stop | Send 'm | SockOpen nat | SockClose nat | SockError nat | TimerFire

fun enabled :: "'m event \<Rightarrow> 'm client \<Rightarrow> bool" where
  "enabled (SockOpen w) s = (w < length (sockets s) \<and> sockets s ! w = CONNECTING)"
| "enabled (SockClose w) s = (w < length (sockets s) \<and> sockets s ! w \<noteq> CLOSED)"
| "enabled (SockError w) s = (w < length (sockets s) \<and> sockets s ! w \<noteq> CLOSED)"
| "enabled TimerFire s = (0 < timers s)"
| "enabled _ s = True"

fun handle :: "'m event \<Rightarrow> 'm client \<Rightarrow> 'm client option" where
  "handle Start s = Some (start s)"
| "handle Stop s = Some (stop s)"
| "handle (Send m) s = Some (send (Msg m) s)"
| "handle (SockOpen w) s = onOpen w s"
| "handle (SockClose w) s = Some (onClose w s)"
| "handle (SockError w) s = Some (onError w s)"
| "handle TimerFire s = Some (timerFire s)"

fun exec :: "'m event list \<Rightarrow> 'm client \<Rightarrow> 'm client option" where
  "exec [] s = Some s"
| "exec (ev # evs) s =
     (if enabled ev s
      then (case handle ev s of None \<Rightarrow> None | Some s1 \<Rightarrow> exec evs s1)
      else None)"

definition attempts :: "'m client \<Rightarrow> nat" where
  "attempts s = length (sockets s)"


section \<open>Capture points\<close>

text \<open>
  A wrapped call either returns or throws; \<open>fetch\<close> may also hand back a promise that
  resolves or rejects. The original function is a parameter of its wrapper, as it is a
  captured variable in the source. Building the event (stack capture, preview text,
  serialized arguments, reading \<open>response.status\<close>) is a parameter too, and it can throw:
  \<open>toISOString\<close> on an invalid date, a getter that throws, a response that is
  \<open>null\<close>. In the console wrapper the event is built after the \<open>try\<close>/\<open>catch\<close>
  around the original call and outside it. In the \<open>fetch\<close> wrapper the \<open>catch\<close>
  callback is chained after the \<open>then\<close> callback, so it also receives what the
  \<open>then\<close> callback throws. The callbacks run later than the call; the model applies
  their \<open>send\<close> to the state at hand. Reading the method and the URL from the
  arguments before the call is taken not to throw.
\<close>

datatype 'e outcome = Returned | Threw 'e

datatype ('r, 'e) fetchResult = SyncThrow 'e | Resolved 'r | Rejected 'e

definition patchedConsole ::
  "bool \<Rightarrow> ('a \<Rightarrow> 'e outcome) option \<Rightarrow> (string \<Rightarrow> 'a \<Rightarrow> 'e + 'm) \<Rightarrow> string \<Rightarrow> 'a
     \<Rightarrow> 'm client \<Rightarrow> 'e outcome \<times> 'm client" where
  "patchedConsole captureConsole original buildPayload method args s =
     (let caught = (case original of
                      None \<Rightarrow> Returned
                    | Some f \<Rightarrow> (case f args of Returned \<Rightarrow> Returned | Threw err \<Rightarrow> Returned))
      in if \<not> captureConsole then (caught, s)
         else (case buildPayload method args of
                 Inl err \<Rightarrow> (Threw err, s)
               | Inr m \<Rightarrow> (caught, send (Msg m) s)))"

text \<open>The \<open>catch\<close> callback: record the error, then throw it again.\<close>

definition fetchCatch ::
  "('i \<Rightarrow> 'e \<Rightarrow> 'e + 'm) \<Rightarrow> 'i \<Rightarrow> 'e \<Rightarrow> 'm client \<Rightarrow> ('r, 'e) fetchResult \<times> 'm client" where
  "fetchCatch buildErr input err s =
     (case buildErr input err of
        Inl err2 \<Rightarrow> (Rejected err2, s)
      | Inr m \<Rightarrow> (Rejected err, send (Msg m) s))"

definition patchedFetch ::
  "bool \<Rightarrow> ('i \<Rightarrow> ('r, 'e) fetchResult) \<Rightarrow> ('i \<Rightarrow> 'r \<Rightarrow> 'e + 'm) \<Rightarrow> ('i \<Rightarrow> 'e \<Rightarrow> 'e + 'm)
     \<Rightarrow> 'i \<Rightarrow> 'm client \<Rightarrow> ('r, 'e) fetchResult \<times> 'm client" where
  "patchedFetch networkEnabled originalFetch buildOk buildErr input s =
     (if \<not> networkEnabled then (originalFetch input, s)
      else (case originalFetch input of
              SyncThrow err \<Rightarrow> (SyncThrow err, s)
            | Resolved response \<Rightarrow>
                (case buildOk input response of
                   Inl err \<Rightarrow> fetchCatch buildErr input err s
                 | Inr m \<Rightarrow> (Resolved response, send (Msg m) s))
            | Rejected err \<Rightarrow> fetchCatch buildErr input err s))"

text \<open>The patched \<open>open\<close> and \<open>send\<close> of the request prototype; \<open>this\<close> is the request.\<close>

record xhr =
  consoleSamuraiMethod :: "string option"
  consoleSamuraiUrl :: "string option"
  loadendListeners :: nat

definition patchedXhrOpen ::
  "(xhr \<Rightarrow> string \<Rightarrow> string \<Rightarrow> 'e outcome) \<Rightarrow> xhr \<Rightarrow> string \<Rightarrow> string \<Rightarrow> 'e outcome \<times> xhr" where
  "patchedXhrOpen originalOpen this method url =
     (let this1 = this\<lparr>consoleSamuraiMethod := Some method, consoleSamuraiUrl := Some url\<rparr>
      in (originalOpen this1 method url, this1))"

definition patchedXhrSend ::
  "bool \<Rightarrow> (xhr \<Rightarrow> 'a \<Rightarrow> 'e outcome) \<Rightarrow> xhr \<Rightarrow> 'a \<Rightarrow> 'e outcome \<times> xhr" where
  "patchedXhrSend networkEnabled originalSend this args =
     (if \<not> networkEnabled then (originalSend this args, this)
      else (let this1 = this\<lparr>loadendListeners := loadendListeners this + 1\<rparr>
            in (originalSend this1 args, this1)))"

section \<open>Log store\<close>

text \<open>
  A \<open>log\<close> message carries the fields of the wire protocol, each optional. A field is
  \<open>None\<close> when it is absent or \<open>null\<close>, and has the type the clients send: text fields
  are strings, positions and durations are numbers, \<open>status\<close> is a number or the string
  \<open>ERR\<close>, \<open>values\<close> is an array of serialized values. The operator \<open>||\<close> of the source
  takes its right operand when the left one is falsy: absent, \<open>null\<close>, the number 0 or the
  empty string; an array is never falsy.
  The counter \<open>logSeq\<close> is a natural number (the source's number is exact below
  \<open>2^53\<close>), and so is the capacity \<open>maxLogEntries\<close>.
\<close>

datatype status = StatusNum rat | StatusStr string

record payload =
  p_type :: "string option"
  p_level :: "string option"
  p_kind :: "string option"
  p_text :: "string option"
  p_values :: "sval list option"
  p_timestamp :: "rat option"
  p_file :: "string option"
  p_line :: "rat option"
  p_column :: "rat option"
  p_stack :: "string option"
  p_url :: "string option"
  p_method :: "string option"
  p_status :: "status option"
  p_durationMs :: "rat option"
  p_label :: "string option"
  p_source :: "string option"

record entry =
  e_id :: nat
  e_level :: string
  e_kind :: string
  e_text :: string
  e_values :: "sval list"
  e_timestamp :: rat
  e_file :: "string option"
  e_line :: "rat option"
  e_column :: "rat option"
  e_stack :: "string option"
  e_url :: "string option"
  e_method :: "string option"
  e_status :: "status option"
  e_durationMs :: "rat option"
  e_label :: "string option"
  e_source :: "string option"
  e_clientId :: nat

record lineData =
  entry :: entry
  count :: nat

text \<open>
  The part of the extension's \<open>state\<close> that ingestion reads and writes. \<open>enabledLevels\<close>
  is \<open>state.config.enabledLevels\<close>; \<open>lineStateByUri\<close> maps a document URI to the map
  from zero-based line to the latest entry and its count.
\<close>

record store =
  logs :: "entry list"
  logSeq :: nat
  maxLogEntries :: nat
  inlineEnabled :: bool
  enabledLevels :: "string list"
  lineStateByUri :: "string \<rightharpoonup> (rat \<rightharpoonup> lineData)"

definition LEVELS :: "string list" where
  "LEVELS = [''log'', ''info'', ''warn'', ''error'', ''debug'', ''trace'', ''time'', ''network'']"

definition truthyStr :: "string \<Rightarrow> bool" where
  "truthyStr s = (s \<noteq> [])"

definition truthyNum :: "rat \<Rightarrow> bool" where
  "truthyNum n = (n \<noteq> 0)"

fun truthyStatus :: "status \<Rightarrow> bool" where
  "truthyStatus (StatusNum n) = truthyNum n"
| "truthyStatus (StatusStr s) = truthyStr s"

text \<open>\<open>orElse t x d\<close> is \<open>x || d\<close>; \<open>orNull t x\<close> is \<open>x || null\<close>.\<close>

definition orElse :: "('a \<Rightarrow> bool) \<Rightarrow> 'a option \<Rightarrow> 'a \<Rightarrow> 'a" where
  "orElse truthy x d = (case x of None \<Rightarrow> d | Some v \<Rightarrow> if truthy v then v else d)"

definition orNull :: "('a \<Rightarrow> bool) \<Rightarrow> 'a option \<Rightarrow> 'a option" where
  "orNull truthy x = (case x of None \<Rightarrow> None | Some v \<Rightarrow> if truthy v then Some v else None)"

definition sanitizeLevel :: "string \<Rightarrow> string" where
  "sanitizeLevel level = (if level \<in> set LEVELS then level else ''log'')"

text \<open>
  The object literal built in \<open>addLogEntry\<close>, with the id already taken from the counter
  and \<open>now\<close> standing for \<open>Date.now()\<close>.
\<close>

definition newEntry :: "rat \<Rightarrow> nat \<Rightarrow> payload \<Rightarrow> nat \<Rightarrow> entry" where
  "newEntry now ident p clientId =
     (let level = sanitizeLevel (orElse truthyStr (p_level p) (orElse truthyStr (p_kind p) ''log''));
          timestamp = (case p_timestamp p of Some t \<Rightarrow> t | None \<Rightarrow> now)
      in \<lparr> e_id = ident,
           e_level = level,
           e_kind = orElse truthyStr (p_kind p) (orElse truthyStr (p_type p) level),
           e_text = orElse truthyStr (p_text p) [],
           e_values = (case p_values p of Some vs \<Rightarrow> vs | None \<Rightarrow> []),
           e_timestamp = timestamp,
           e_file = orNull truthyStr (p_file p),
           e_line = orNull truthyNum (p_line p),
           e_column = orNull truthyNum (p_column p),
           e_stack = orNull truthyStr (p_stack p),
           e_url = orNull truthyStr (p_url p),
           e_method = orNull truthyStr (p_method p),
           e_status = orNull truthyStatus (p_status p),
           e_durationMs = orNull truthyNum (p_durationMs p),
           e_label = orNull truthyStr (p_label p),
           e_source = orNull truthyStr (p_source p),
           e_clientId = clientId \<rparr>)"

text \<open>\<open>splice(0, overflow)\<close> removes the first \<open>overflow\<close> entries.\<close>

definition trimLogs :: "store \<Rightarrow> store" where
  "trimLogs st =
     (if length (logs st) \<le> maxLogEntries st then st
      else (let overflow = length (logs st) - maxLogEntries st
            in st\<lparr>logs := drop overflow (logs st)\<rparr>))"

section \<open>Inline annotation state\<close>

text \<open>
  \<open>resolveUri\<close> stands for \<open>resolveEntryPath\<close> followed by the conversion of the path
  to the URI string that keys \<open>lineStateByUri\<close>; it depends on the file system and the
  workspace folders and is a parameter. The line key is
  \<open>Math.max(0, (entry.line || 1) - 1)\<close>.
\<close>

definition zeroBasedLine :: "entry \<Rightarrow> rat" where
  "zeroBasedLine e = max 0 (orElse truthyNum (e_line e) 1 - 1)"

definition updateInlineForEntry :: "(entry \<Rightarrow> string option) \<Rightarrow> entry \<Rightarrow> store \<Rightarrow> store" where
  "updateInlineForEntry resolveUri e st =
     (case resolveUri e of
        None \<Rightarrow> st
      | Some uri \<Rightarrow>
          (let line = zeroBasedLine e;
               lineState = (case lineStateByUri st uri of None \<Rightarrow> Map.empty | Some m \<Rightarrow> m);
               cnt = (case lineState line of Some existing \<Rightarrow> count existing + 1 | None \<Rightarrow> 1)
           in st\<lparr>lineStateByUri :=
                  (lineStateByUri st)(uri \<mapsto> lineState(line \<mapsto> \<lparr>entry = e, count = cnt\<rparr>))\<rparr>))"

text \<open>
  \<open>addLogEntry\<close> returns the entry it built (the one it hands to the viewer) and the
  new state. Writing to the output channel and posting to the viewer leave the state
  alone and are left out.
\<close>

definition addLogEntry ::
  "(entry \<Rightarrow> string option) \<Rightarrow> rat \<Rightarrow> payload \<Rightarrow> nat \<Rightarrow> store \<Rightarrow> entry \<times> store" where
  "addLogEntry resolveUri now p clientId st =
     (let st1 = st\<lparr>logSeq := logSeq st + 1\<rparr>;
          e = newEntry now (logSeq st1) p clientId;
          st2 = trimLogs (st1\<lparr>logs := logs st1 @ [e]\<rparr>)
      in if e_level e \<in> set (enabledLevels st2) \<and> inlineEnabled st2
         then (e, updateInlineForEntry resolveUri e st2)
         else (e, st2))"

definition clearLogs :: "store \<Rightarrow> store" where
  "clearLogs st = st\<lparr>logs := [], lineStateByUri := Map.empty\<rparr>"

text \<open>A run of the store: ingestions and clears, in order, with the entries built.\<close>

datatype storeOp = Ingest rat payload nat | Clear

fun runOps ::
  "(entry \<Rightarrow> string option) \<Rightarrow> storeOp list \<Rightarrow> store \<Rightarrow> entry list \<times> store" where
  "runOps resolveUri [] st = ([], st)"
| "runOps resolveUri (Ingest now p clientId # ops) st =
     (case addLogEntry resolveUri now p clientId st of
        (e, st1) \<Rightarrow> (case runOps resolveUri ops st1 of (es, st2) \<Rightarrow> (e # es, st2)))"
| "runOps resolveUri (Clear # ops) st = runOps resolveUri ops (clearLogs st)"

definition lookupLine :: "store \<Rightarrow> string \<Rightarrow> rat \<Rightarrow> lineData option" where
  "lookupLine st uri line = (case lineStateByUri st uri of None \<Rightarrow> None | Some m \<Rightarrow> m line)"

definition occurrenceCount :: "store \<Rightarrow> string \<Rightarrow> rat \<Rightarrow> nat" where
  "occurrenceCount st uri line = (case lookupLine st uri line of None \<Rightarrow> 0 | Some d \<Rightarrow> count d)"

text \<open>
  \<open>formatInlineText\<close>. The helpers \<open>formatTimestamp\<close> and \<open>formatFallbackText\<close> render
  dates and numbers through the runtime and are parameters.
\<close>

record inlineConfig =
  inlineMaxTextLength :: nat
  inlineShowTimestamp :: bool

definition formatInlineText ::
  "inlineConfig \<Rightarrow> (rat \<Rightarrow> string) \<Rightarrow> (entry \<Rightarrow> string) \<Rightarrow> entry \<Rightarrow> nat \<Rightarrow> string" where
  "formatInlineText cfg formatTimestamp formatFallbackText e cnt =
     (let maxLen = inlineMaxTextLength cfg;
          prefix = (if inlineShowTimestamp cfg
                    then ''['' @ formatTimestamp (e_timestamp e) @ ''] '' else []);
          text0 = (if truthyStr (e_text e) then e_text e else formatFallbackText e);
          text1 = (if length text0 > maxLen then take (maxLen - 3) text0 @ ''...'' else text0);
          suffix = (if cnt > 1 then '' (+'' @ showNat (cnt - 1) @ '')'' else [])
      in '' '' @ prefix @ text1 @ suffix)"

section \<open>Scenario data\<close>

text \<open>
  Heaps: an object that refers to itself, two siblings sharing a child, a cycle through
  two objects, a short array.
\<close>

definition emptyHeap :: heap where
  "emptyHeap = (\<lambda>a. JObject [])"


definition sharedHeap :: heap where
  "sharedHeap = emptyHeap(0 := JObject [(''x'', VRef 1), (''y'', VRef 1)],
                          1 := JObject [(''v'', VNum 1)])"


definition pairHeap :: heap where
  "pairHeap = emptyHeap(0 := JArray [VNum 1, VNum 2])"

definition shortLimits :: options where
  "shortLimits = \<lparr> maxDepth = 4, maxProps = 50, maxArray = 1, maxStringLength = 3 \<rparr>"

text \<open>A client whose first socket has opened.\<close>

definition openClient :: "unit client" where
  "openClient = \<lparr> ws = Some 0, queue = [], connected = True, installed = True,
                   sockets = [OPEN], timers = 0, wire = [(0, Hello)] \<rparr>"






text \<open>A console method that throws, and a payload builder.\<close>

definition throwingLog :: "string list \<Rightarrow> string outcome" where
  "throwingLog args = Threw ''boom''"

definition consolePayload ::
  "string \<Rightarrow> string list \<Rightarrow> string + string \<times> string list" where
  "consolePayload method args = Inr (method, args)"

text \<open>Originals of \<open>fetch\<close> that fail, and event builders that succeed or throw.\<close>

definition throwingFetch :: "string \<Rightarrow> (string, string) fetchResult" where
  "throwingFetch input = SyncThrow ''bad url''"

definition rejectingFetch :: "string \<Rightarrow> (string, string) fetchResult" where
  "rejectingFetch input = Rejected ''down''"

definition networkPayload ::
  "string \<Rightarrow> string \<Rightarrow> string + string \<times> string list" where
  "networkPayload input result = Inr (''network'', [input, result])"

definition brokenPayload ::
  "string \<Rightarrow> string \<Rightarrow> string + string \<times> string list" where
  "brokenPayload input result = Inl ''RangeError''"

text \<open>Payloads, stores and resolvers.\<close>

definition emptyPayload :: payload where
  "emptyPayload = \<lparr> p_type = Some ''log'', p_level = None, p_kind = None, p_text = None,
       p_values = None, p_timestamp = None, p_file = None, p_line = None, p_column = None,
       p_stack = None, p_url = None, p_method = None, p_status = None, p_durationMs = None,
       p_label = None, p_source = None \<rparr>"

definition emptyStore :: "nat \<Rightarrow> store" where
  "emptyStore cap = \<lparr> logs = [], logSeq = 0, maxLogEntries = cap, inlineEnabled = True,
       enabledLevels = LEVELS, lineStateByUri = Map.empty \<rparr>"

definition unresolved :: "entry \<Rightarrow> string option" where
  "unresolved e = None"

definition resolveRepoFile :: "entry \<Rightarrow> string option" where
  "resolveRepoFile e = Some ''file:///repo/src/x.js''"

definition threeEvents :: "storeOp list" where
  "threeEvents = [Ingest 10 (emptyPayload\<lparr>p_text := Some ''first''\<rparr>) 1,
                  Ingest 20 (emptyPayload\<lparr>p_text := Some ''second''\<rparr>) 1,
                  Ingest 30 (emptyPayload\<lparr>p_text := Some ''third''\<rparr>) 1]"

definition ingestClearIngest :: "storeOp list" where
  "ingestClearIngest = [Ingest 10 emptyPayload 1, Ingest 20 emptyPayload 1, Clear,
                        Ingest 30 emptyPayload 2]"

definition hitPayload :: "string \<Rightarrow> payload" where
  "hitPayload txt = emptyPayload\<lparr>p_text := Some txt, p_file := Some ''/repo/src/x.js'',
                                 p_line := Some 10\<rparr>"

definition firstHit :: entry where
  "firstHit = newEntry 10 1 (hitPayload ''first'') 1"

definition secondHit :: entry where
  "secondHit = newEntry 20 2 (hitPayload ''second'') 1"

definition sameLineEvents :: "storeOp list" where
  "sameLineEvents = [Ingest 10 (hitPayload ''first'') 1, Ingest 20 (hitPayload ''second'') 1]"

definition inlineDefaults :: inlineConfig where
  "inlineDefaults = \<lparr> inlineMaxTextLength = 120, inlineShowTimestamp = False \<rparr>"

definition clockText :: "rat \<Rightarrow> string" where
  "clockText t = ''00:00:00.000''"

definition noFallback :: "entry \<Rightarrow> string" where
  "noFallback e = []"

section \<open>The log store: capacity, identifiers, normalization\<close>

lemma logs_updateInline: "logs (updateInlineForEntry r e st) = logs st"
  by (simp add: updateInlineForEntry_def Let_def split: option.splits)

lemma logSeq_updateInline: "logSeq (updateInlineForEntry r e st) = logSeq st"
  by (simp add: updateInlineForEntry_def Let_def split: option.splits)

lemma maxLog_updateInline: "maxLogEntries (updateInlineForEntry r e st) = maxLogEntries st"
  by (simp add: updateInlineForEntry_def Let_def split: option.splits)

lemma logs_trimLogs: "logs (trimLogs st) = drop (length (logs st) - maxLogEntries st) (logs st)"
  by (simp add: trimLogs_def Let_def)

lemma logSeq_trimLogs: "logSeq (trimLogs st) = logSeq st"
  by (simp add: trimLogs_def Let_def)

lemma maxLog_trimLogs: "maxLogEntries (trimLogs st) = maxLogEntries st"
  by (simp add: trimLogs_def Let_def)

lemma logSeq_clearLogs: "logSeq (clearLogs st) = logSeq st"
  by (simp add: clearLogs_def)

lemma e_id_newEntry: "e_id (newEntry now i p c) = i"
  by (simp add: newEntry_def Let_def)

lemma fst_addLogEntry: "fst (addLogEntry r now p c st) = newEntry now (logSeq st + 1) p c"
  by (simp add: addLogEntry_def Let_def)

lemma logs_addLogEntry:
  "logs (snd (addLogEntry r now p c st)) =
     drop (length (logs st @ [fst (addLogEntry r now p c st)]) - maxLogEntries st)
          (logs st @ [fst (addLogEntry r now p c st)])"
  by (simp add: addLogEntry_def Let_def logs_trimLogs logs_updateInline)

lemma logSeq_addLogEntry: "logSeq (snd (addLogEntry r now p c st)) = logSeq st + 1"
  by (simp add: addLogEntry_def Let_def logSeq_trimLogs logSeq_updateInline)

lemma maxLog_addLogEntry: "maxLogEntries (snd (addLogEntry r now p c st)) = maxLogEntries st"
  by (simp add: addLogEntry_def Let_def maxLog_trimLogs maxLog_updateInline)

text \<open>Trimming a trimmed list that has grown is trimming the whole list once.\<close>

lemma drop_drop_append:
  "drop (length (drop (length xs - m) xs @ ys) - m) (drop (length xs - m) xs @ ys)
     = drop (length (xs @ ys) - m) (xs @ ys)"
  by (cases "length xs \<le> m") (auto simp: drop_append add.commute)

lemma runOps_Ingest:
  "runOps r (Ingest now p c # ops) st =
     (fst (addLogEntry r now p c st) # fst (runOps r ops (snd (addLogEntry r now p c st))),
      snd (runOps r ops (snd (addLogEntry r now p c st))))"
  by (simp split: prod.splits)

lemma logs_runOps:
  "Clear \<notin> set ops \<Longrightarrow> length (logs st) \<le> maxLogEntries st \<or> ops \<noteq> [] \<Longrightarrow>
   logs (snd (runOps r ops st)) =
     drop (length (logs st @ fst (runOps r ops st)) - maxLogEntries st)
          (logs st @ fst (runOps r ops st))"
proof (induction ops arbitrary: st)
  case Nil
  then show ?case by simp
next
  case (Cons x ops)
  then obtain now p c where x: "x = Ingest now p c" by (cases x) auto
  let ?e = "fst (addLogEntry r now p c st)"
  let ?st1 = "snd (addLogEntry r now p c st)"
  let ?es = "fst (runOps r ops ?st1)"
  have l1: "logs ?st1 = drop (length (logs st @ [?e]) - maxLogEntries st) (logs st @ [?e])"
    by (rule logs_addLogEntry)
  have bound: "length (logs ?st1) \<le> maxLogEntries ?st1"
    by (simp add: l1 maxLog_addLogEntry)
  have nc: "Clear \<notin> set ops" using Cons.prems(1) by simp
  have "logs (snd (runOps r ops ?st1)) =
     drop (length (logs ?st1 @ ?es) - maxLogEntries ?st1) (logs ?st1 @ ?es)"
    using Cons.IH [OF nc, of ?st1] bound by blast
  also have "\<dots> = drop (length ((logs st @ [?e]) @ ?es) - maxLogEntries st)
                      ((logs st @ [?e]) @ ?es)"
    unfolding l1 maxLog_addLogEntry by (rule drop_drop_append)
  finally show ?case unfolding x runOps_Ingest by simp
qed

text \<open>
  Claim C5. After one or more ingestions (and no clear), the store holds the last
  \<open>maxLogEntries\<close> of what it held before followed by the entries ingested, in ingestion
  order and as they were built (ids included); so it holds at most \<open>maxLogEntries\<close>
  entries. \<open>trimLogs\<close> removes the overflow from the front in one step.
\<close>

theorem log_store_keeps_most_recent:
  assumes "ops \<noteq> []" and "Clear \<notin> set ops"
  shows "logs (snd (runOps r ops st)) =
           drop (length (logs st @ fst (runOps r ops st)) - maxLogEntries st)
                (logs st @ fst (runOps r ops st))
         \<and> length (logs (snd (runOps r ops st))) \<le> maxLogEntries st
         \<and> logs (trimLogs st) = drop (length (logs st) - maxLogEntries st) (logs st)"
proof -
  have a: "logs (snd (runOps r ops st)) =
           drop (length (logs st @ fst (runOps r ops st)) - maxLogEntries st)
                (logs st @ fst (runOps r ops st))"
    using logs_runOps [OF assms(2), of st r] assms(1) by blast
  have b: "length (logs (snd (runOps r ops st))) \<le> maxLogEntries st"
    unfolding a by simp
  show ?thesis using a b logs_trimLogs by blast
qed

text \<open>Three events into an empty store of capacity 2: the second and third remain.\<close>

theorem log_store_keeps_most_recent_witness:
  "threeEvents \<noteq> [] \<and> Clear \<notin> set threeEvents
   \<and> length (logs (snd (runOps unresolved threeEvents (emptyStore 2)))) \<le> 2
   \<and> map (\<lambda>e. (e_id e, e_text e)) (fst (runOps unresolved threeEvents (emptyStore 2)))
       = [(1, ''first''), (2, ''second''), (3, ''third'')]
   \<and> map (\<lambda>e. (e_id e, e_text e)) (logs (snd (runOps unresolved threeEvents (emptyStore 2))))
       = [(2, ''second''), (3, ''third'')]"
proof -
  have h1: "threeEvents \<noteq> []" by (simp add: threeEvents_def)
  have h2: "Clear \<notin> set threeEvents" by (simp add: threeEvents_def)
  have cap: "maxLogEntries (emptyStore 2) = 2" by (simp add: emptyStore_def)
  have bound: "length (logs (snd (runOps unresolved threeEvents (emptyStore 2)))) \<le> 2"
    using log_store_keeps_most_recent [OF h1 h2, of unresolved "emptyStore 2"] cap by simp
  have built: "map (\<lambda>e. (e_id e, e_text e)) (fst (runOps unresolved threeEvents (emptyStore 2)))
       = [(1, ''first''), (2, ''second''), (3, ''third'')]"
    by code_simp
  have kept: "map (\<lambda>e. (e_id e, e_text e)) (logs (snd (runOps unresolved threeEvents (emptyStore 2))))
       = [(2, ''second''), (3, ''third'')]"
    by code_simp
  show ?thesis using h1 h2 bound built kept by blast
qed

lemma ids_runOps:
  "sorted_wrt (<) (map e_id (fst (runOps r ops st)))
   \<and> (\<forall>e \<in> set (fst (runOps r ops st)). logSeq st < e_id e)"
proof (induction ops arbitrary: st)
  case Nil
  show ?case by simp
next
  case (Cons x ops)
  show ?case
  proof (cases x)
    case (Ingest now p c)
    let ?st1 = "snd (addLogEntry r now p c st)"
    have idn: "e_id (fst (addLogEntry r now p c st)) = logSeq st + 1"
      by (simp add: fst_addLogEntry e_id_newEntry)
    have ih: "sorted_wrt (<) (map e_id (fst (runOps r ops ?st1)))
       \<and> (\<forall>e \<in> set (fst (runOps r ops ?st1)). logSeq st + 1 < e_id e)"
      using Cons.IH [of ?st1] by (simp add: logSeq_addLogEntry)
    show ?thesis unfolding Ingest runOps_Ingest using ih idn by auto
  next
    case Clear
    show ?thesis using Cons.IH [of "clearLogs st"] by (simp add: Clear logSeq_clearLogs)
  qed
qed

text \<open>
  Claim C6. In any run of ingestions and clears, the ids given to the ingested events
  are strictly increasing, hence never repeated, and all above the counter the run
  started from; \<open>clearLogs\<close> empties the store and leaves the counter as it is, and
  \<open>trimLogs\<close> leaves the counter as it is.
\<close>

theorem ids_strictly_increasing:
  "sorted_wrt (<) (map e_id (fst (runOps r ops st)))
   \<and> distinct (map e_id (fst (runOps r ops st)))
   \<and> (\<forall>e \<in> set (fst (runOps r ops st)). logSeq st < e_id e)
   \<and> logs (clearLogs st) = []
   \<and> logSeq (clearLogs st) = logSeq st
   \<and> logSeq (trimLogs st) = logSeq st"
proof -
  have e: "logs (clearLogs st) = []" by (simp add: clearLogs_def)
  have a: "sorted_wrt (<) (map e_id (fst (runOps r ops st)))"
    and b: "\<forall>e \<in> set (fst (runOps r ops st)). logSeq st < e_id e"
    using ids_runOps [of r ops st] by blast+
  have c: "distinct (map e_id (fst (runOps r ops st)))"
    using a strict_sorted_iff by blast
  show ?thesis using a b c e logSeq_clearLogs logSeq_trimLogs by blast
qed

text \<open>
  Two ingestions, a clear, one more ingestion: ids 1, 2, 3, and with room for five the
  store holds only the entry ingested after the clear.
\<close>

theorem ids_strictly_increasing_witness:
  "map e_id (fst (runOps unresolved ingestClearIngest (emptyStore 1))) = [1, 2, 3]
   \<and> (\<exists>e \<in> set (fst (runOps unresolved ingestClearIngest (emptyStore 1))).
         logSeq (emptyStore 1) < e_id e)
   \<and> sorted_wrt (<) (map e_id (fst (runOps unresolved ingestClearIngest (emptyStore 1))))
   \<and> map e_id (logs (snd (runOps unresolved ingestClearIngest (emptyStore 5)))) = [3]"
proof -
  have after: "map e_id (logs (snd (runOps unresolved ingestClearIngest (emptyStore 5)))) = [3]"
    by code_simp
  have ev: "map e_id (fst (runOps unresolved ingestClearIngest (emptyStore 1))) = [1, 2, 3]"
    by code_simp
  then have ne: "fst (runOps unresolved ingestClearIngest (emptyStore 1)) \<noteq> []" by auto
  have all: "\<forall>e \<in> set (fst (runOps unresolved ingestClearIngest (emptyStore 1))).
         logSeq (emptyStore 1) < e_id e"
    and srt: "sorted_wrt (<) (map e_id (fst (runOps unresolved ingestClearIngest (emptyStore 1))))"
    using ids_strictly_increasing [of unresolved ingestClearIngest "emptyStore 1"] by blast+
  from ne obtain e where "e \<in> set (fst (runOps unresolved ingestClearIngest (emptyStore 1)))"
    by (cases "fst (runOps unresolved ingestClearIngest (emptyStore 1))") auto
  then show ?thesis using ev all srt after by blast
qed

lemma newEntry_line_zero:
  "newEntry now i (p\<lparr>p_line := Some 0\<rparr>) c = newEntry now i (p\<lparr>p_line := None\<rparr>) c"
  by (simp add: newEntry_def Let_def orNull_def truthyNum_def)

lemma sanitizeLevel_log: "sanitizeLevel ''log'' = ''log''"
  by (simp add: sanitizeLevel_def)

lemma sanitizeLevel_empty: "sanitizeLevel [] = ''log''"
  by (simp add: sanitizeLevel_def LEVELS_def)

text \<open>
  Claim C10. Ingestion normalizes falsy fields: a line, column, status or duration of 0
  is stored as null; an absent or empty text as the empty string; without a level (absent
  or empty) the level is the sanitized kind, that is the kind itself when it is one of
  the eight levels and \<open>log\<close> otherwise, and \<open>log\<close> when the kind is absent too; a
  level that is one of the eight is kept.
  A payload reporting line 0 is ingested exactly as the same payload without a line, and
  the entry built is the one appended to the store.
\<close>

theorem ingest_normalizes_falsy_fields:
  "e_line (fst (addLogEntry r now (p\<lparr>p_line := Some 0\<rparr>) c st)) = None
   \<and> e_column (fst (addLogEntry r now (p\<lparr>p_column := Some 0\<rparr>) c st)) = None
   \<and> e_status (fst (addLogEntry r now (p\<lparr>p_status := Some (StatusNum 0)\<rparr>) c st)) = None
   \<and> e_durationMs (fst (addLogEntry r now (p\<lparr>p_durationMs := Some 0\<rparr>) c st)) = None
   \<and> e_text (fst (addLogEntry r now (p\<lparr>p_text := None\<rparr>) c st)) = []
   \<and> e_text (fst (addLogEntry r now (p\<lparr>p_text := Some []\<rparr>) c st)) = []
   \<and> e_level (fst (addLogEntry r now (p\<lparr>p_level := None, p_kind := Some k\<rparr>) c st))
       = sanitizeLevel k
   \<and> e_level (fst (addLogEntry r now (p\<lparr>p_level := Some [], p_kind := Some k\<rparr>) c st))
       = sanitizeLevel k
   \<and> e_level (fst (addLogEntry r now (p\<lparr>p_level := None, p_kind := None\<rparr>) c st)) = ''log''
   \<and> (k \<in> set LEVELS \<longrightarrow>
        e_level (fst (addLogEntry r now (p\<lparr>p_level := None, p_kind := Some k\<rparr>) c st)) = k)
   \<and> (k \<notin> set LEVELS \<longrightarrow>
        e_level (fst (addLogEntry r now (p\<lparr>p_level := None, p_kind := Some k\<rparr>) c st)) = ''log'')
   \<and> (l \<in> set LEVELS \<longrightarrow>
        e_level (fst (addLogEntry r now (p\<lparr>p_level := Some l\<rparr>) c st)) = l)
   \<and> addLogEntry r now (p\<lparr>p_line := Some 0\<rparr>) c st = addLogEntry r now (p\<lparr>p_line := None\<rparr>) c st
   \<and> logs (snd (addLogEntry r now p c st)) =
        drop (length (logs st @ [fst (addLogEntry r now p c st)]) - maxLogEntries st)
             (logs st @ [fst (addLogEntry r now p c st)])"
proof -
  have 1: "e_line (fst (addLogEntry r now (p\<lparr>p_line := Some 0\<rparr>) c st)) = None"
    by (simp add: fst_addLogEntry newEntry_def Let_def orNull_def truthyNum_def)
  have 2: "e_column (fst (addLogEntry r now (p\<lparr>p_column := Some 0\<rparr>) c st)) = None"
    by (simp add: fst_addLogEntry newEntry_def Let_def orNull_def truthyNum_def)
  have 3: "e_status (fst (addLogEntry r now (p\<lparr>p_status := Some (StatusNum 0)\<rparr>) c st)) = None"
    by (simp add: fst_addLogEntry newEntry_def Let_def orNull_def truthyNum_def)
  have 4: "e_durationMs (fst (addLogEntry r now (p\<lparr>p_durationMs := Some 0\<rparr>) c st)) = None"
    by (simp add: fst_addLogEntry newEntry_def Let_def orNull_def truthyNum_def)
  have 5: "e_text (fst (addLogEntry r now (p\<lparr>p_text := None\<rparr>) c st)) = []"
    by (simp add: fst_addLogEntry newEntry_def Let_def orElse_def)
  have 6: "e_text (fst (addLogEntry r now (p\<lparr>p_text := Some []\<rparr>) c st)) = []"
    by (simp add: fst_addLogEntry newEntry_def Let_def orElse_def truthyStr_def)
  have 7: "e_level (fst (addLogEntry r now (p\<lparr>p_level := None, p_kind := Some k\<rparr>) c st))
             = sanitizeLevel k"
    by (simp add: fst_addLogEntry newEntry_def Let_def orElse_def truthyStr_def
          sanitizeLevel_log sanitizeLevel_empty)
  have 8: "e_level (fst (addLogEntry r now (p\<lparr>p_level := Some [], p_kind := Some k\<rparr>) c st))
             = sanitizeLevel k"
    by (simp add: fst_addLogEntry newEntry_def Let_def orElse_def truthyStr_def
          sanitizeLevel_log sanitizeLevel_empty)
  have 9: "e_level (fst (addLogEntry r now (p\<lparr>p_level := None, p_kind := None\<rparr>) c st)) = ''log''"
    by (simp add: fst_addLogEntry newEntry_def Let_def orElse_def sanitizeLevel_log)
  have 10: "addLogEntry r now (p\<lparr>p_line := Some 0\<rparr>) c st
              = addLogEntry r now (p\<lparr>p_line := None\<rparr>) c st"
    unfolding addLogEntry_def newEntry_line_zero ..
  have 11: "k \<in> set LEVELS \<longrightarrow>
        e_level (fst (addLogEntry r now (p\<lparr>p_level := None, p_kind := Some k\<rparr>) c st)) = k"
    unfolding 7 by (simp add: sanitizeLevel_def)
  have 12: "k \<notin> set LEVELS \<longrightarrow>
        e_level (fst (addLogEntry r now (p\<lparr>p_level := None, p_kind := Some k\<rparr>) c st)) = ''log''"
    unfolding 7 by (simp add: sanitizeLevel_def)
  have 13: "l \<in> set LEVELS \<longrightarrow>
        e_level (fst (addLogEntry r now (p\<lparr>p_level := Some l\<rparr>) c st)) = l"
    by (auto simp: fst_addLogEntry newEntry_def Let_def orElse_def truthyStr_def
          sanitizeLevel_def LEVELS_def)
  show ?thesis using 1 2 3 4 5 6 7 8 9 10 11 12 13 logs_addLogEntry by blast
qed

text \<open>
  Without a level, the kind \<open>warn\<close> becomes the level and the kind \<open>custom\<close> gives
  \<open>log\<close>; the level \<open>error\<close> is kept whatever the kind.
\<close>

theorem ingest_normalizes_falsy_fields_witness:
  "''warn'' \<in> set LEVELS \<and> ''custom'' \<notin> set LEVELS \<and> ''error'' \<in> set LEVELS
   \<and> e_level (fst (addLogEntry unresolved 5
         (emptyPayload\<lparr>p_level := None, p_kind := Some ''warn''\<rparr>) 1 (emptyStore 2))) = ''warn''
   \<and> e_level (fst (addLogEntry unresolved 5
         (emptyPayload\<lparr>p_level := None, p_kind := Some ''custom''\<rparr>) 1 (emptyStore 2))) = ''log''
   \<and> e_level (fst (addLogEntry unresolved 5
         (emptyPayload\<lparr>p_level := Some ''error''\<rparr>) 1 (emptyStore 2))) = ''error''"
proof -
  have h1: "''warn'' \<in> set LEVELS" by (simp add: LEVELS_def)
  have h2: "''custom'' \<notin> set LEVELS" by (simp add: LEVELS_def)
  have h3: "''error'' \<in> set LEVELS" by (simp add: LEVELS_def)
  have a: "e_level (fst (addLogEntry unresolved 5
         (emptyPayload\<lparr>p_level := None, p_kind := Some ''warn''\<rparr>) 1 (emptyStore 2))) = ''warn''"
    using ingest_normalizes_falsy_fields [where k = "''warn''"] h1 by blast
  have b: "e_level (fst (addLogEntry unresolved 5
         (emptyPayload\<lparr>p_level := None, p_kind := Some ''custom''\<rparr>) 1 (emptyStore 2))) = ''log''"
    using ingest_normalizes_falsy_fields [where k = "''custom''"] h2 by blast
  have c: "e_level (fst (addLogEntry unresolved 5
         (emptyPayload\<lparr>p_level := Some ''error''\<rparr>) 1 (emptyStore 2))) = ''error''"
    using ingest_normalizes_falsy_fields [where l = "''error''"] h3 by blast
  show ?thesis using h1 h2 h3 a b c by blast
qed

section \<open>Inline annotation state: occurrence counts\<close>

lemma lookupLine_updateInline_same:
  "resolveUri e = Some uri \<Longrightarrow>
   lookupLine (updateInlineForEntry resolveUri e st) uri (zeroBasedLine e) =
     Some \<lparr> entry = e,
            count = (case lookupLine st uri (zeroBasedLine e) of
                       None \<Rightarrow> 1 | Some existing \<Rightarrow> count existing + 1) \<rparr>"
  by (simp add: updateInlineForEntry_def lookupLine_def Let_def split: option.splits)

lemma lookupLine_updateInline_other:
  "resolveUri e \<noteq> Some uri \<or> zeroBasedLine e \<noteq> line \<Longrightarrow>
   lookupLine (updateInlineForEntry resolveUri e st) uri line = lookupLine st uri line"
  by (auto simp: updateInlineForEntry_def lookupLine_def Let_def split: option.splits)

lemma occurrenceCount_updateInline_mono:
  "occurrenceCount st uri line \<le> occurrenceCount (updateInlineForEntry resolveUri e st) uri line"
proof (cases "resolveUri e = Some uri \<and> zeroBasedLine e = line")
  case True
  then show ?thesis
    using lookupLine_updateInline_same [of resolveUri e uri st]
    by (auto simp: occurrenceCount_def split: option.splits)
next
  case False
  then show ?thesis
    using lookupLine_updateInline_other [of resolveUri e uri line st]
    by (auto simp: occurrenceCount_def)
qed

lemma lookupLine_trimLogs: "lookupLine (trimLogs st) uri line = lookupLine st uri line"
  by (simp add: trimLogs_def lookupLine_def Let_def)

lemma occurrenceCount_addLogEntry_mono:
  "occurrenceCount st uri line \<le> occurrenceCount (snd (addLogEntry resolveUri now p c st)) uri line"
proof -
  let ?st1 = "trimLogs (st\<lparr>logSeq := logSeq st + 1,
                 logs := logs st @ [newEntry now (logSeq st + 1) p c]\<rparr>)"
  have same: "occurrenceCount ?st1 uri line = occurrenceCount st uri line"
    by (simp add: occurrenceCount_def lookupLine_trimLogs) (simp add: lookupLine_def)
  have "snd (addLogEntry resolveUri now p c st) = ?st1
        \<or> snd (addLogEntry resolveUri now p c st)
            = updateInlineForEntry resolveUri (newEntry now (logSeq st + 1) p c) ?st1"
    by (simp add: addLogEntry_def Let_def)
  then show ?thesis
    using occurrenceCount_updateInline_mono [of ?st1 uri line resolveUri] same
    by (metis order_refl)
qed

lemma showNat_1: "showNat (Suc 0) = ''1''"
  by (simp add: showNat.simps digit_def)

lemma formatInlineText_suffix:
  "formatInlineText cfg ft fb e 2 = formatInlineText cfg ft fb e 1 @ '' (+1)''"
  by (simp add: formatInlineText_def Let_def showNat_1)

text \<open>
  Claim C9. An event mapped to a (file, line) key replaces the entry kept there and sets
  the count to 1 if the key was free and to one more than before otherwise; a second
  event on the same key leaves its own entry with a count two above the start (2 on a
  free key). No ingestion and no update lowers the count of any key; \<open>clearLogs\<close>
  discards every key. The text displayed
  for a count of 2 is the text for a single occurrence followed by \<open>(+1)\<close>.
\<close>

theorem line_state_occurrence_count:
  assumes "resolveUri e1 = Some uri" and "resolveUri e2 = Some uri"
    and "zeroBasedLine e2 = zeroBasedLine e1"
  shows "lookupLine (updateInlineForEntry resolveUri e1 st) uri (zeroBasedLine e1) =
           Some \<lparr> entry = e1,
                  count = (case lookupLine st uri (zeroBasedLine e1) of
                             None \<Rightarrow> 1 | Some existing \<Rightarrow> count existing + 1) \<rparr>
       \<and> lookupLine (updateInlineForEntry resolveUri e2 (updateInlineForEntry resolveUri e1 st))
             uri (zeroBasedLine e1) =
           Some \<lparr> entry = e2,
                  count = (case lookupLine st uri (zeroBasedLine e1) of
                             None \<Rightarrow> 2 | Some existing \<Rightarrow> count existing + 2) \<rparr>
       \<and> (\<forall>u l e. occurrenceCount st u l \<le> occurrenceCount (updateInlineForEntry resolveUri e st) u l)
       \<and> (\<forall>u l now p c.
             occurrenceCount st u l \<le> occurrenceCount (snd (addLogEntry resolveUri now p c st)) u l)
       \<and> (\<forall>u l. occurrenceCount (clearLogs st) u l = 0)
       \<and> formatInlineText cfg ft fb e2 2 = formatInlineText cfg ft fb e2 1 @ '' (+1)''"
proof -
  let ?st1 = "updateInlineForEntry resolveUri e1 st"
  have a: "lookupLine ?st1 uri (zeroBasedLine e1) =
           Some \<lparr> entry = e1,
                  count = (case lookupLine st uri (zeroBasedLine e1) of
                             None \<Rightarrow> 1 | Some existing \<Rightarrow> count existing + 1) \<rparr>"
    using assms(1) by (rule lookupLine_updateInline_same)
  have "lookupLine (updateInlineForEntry resolveUri e2 ?st1) uri (zeroBasedLine e2) =
           Some \<lparr> entry = e2,
                  count = (case lookupLine ?st1 uri (zeroBasedLine e2) of
                             None \<Rightarrow> 1 | Some existing \<Rightarrow> count existing + 1) \<rparr>"
    using assms(2) by (rule lookupLine_updateInline_same)
  then have b: "lookupLine (updateInlineForEntry resolveUri e2 ?st1) uri (zeroBasedLine e1) =
           Some \<lparr> entry = e2,
                  count = (case lookupLine st uri (zeroBasedLine e1) of
                             None \<Rightarrow> 2 | Some existing \<Rightarrow> count existing + 2) \<rparr>"
    unfolding assms(3) a by (simp split: option.splits)
  have c: "\<forall>u l. occurrenceCount (clearLogs st) u l = 0"
    by (simp add: occurrenceCount_def lookupLine_def clearLogs_def)
  show ?thesis
    using a b c occurrenceCount_updateInline_mono occurrenceCount_addLogEntry_mono
      formatInlineText_suffix by blast
qed

text \<open>Two events on line 10 of one file, through the update and through ingestion.\<close>

theorem line_state_occurrence_count_witness:
  "resolveRepoFile firstHit = Some ''file:///repo/src/x.js''
   \<and> resolveRepoFile secondHit = Some ''file:///repo/src/x.js''
   \<and> zeroBasedLine secondHit = zeroBasedLine firstHit
   \<and> lookupLine (updateInlineForEntry resolveRepoFile secondHit
                    (updateInlineForEntry resolveRepoFile firstHit (emptyStore 10)))
         ''file:///repo/src/x.js'' 9 = Some \<lparr> entry = secondHit, count = 2 \<rparr>
   \<and> formatInlineText inlineDefaults clockText noFallback secondHit 2 = '' second (+1)''
   \<and> map_option (\<lambda>d. (e_id (entry d), e_text (entry d), count d))
         (lookupLine (snd (runOps resolveRepoFile sameLineEvents (emptyStore 10)))
            ''file:///repo/src/x.js'' 9) = Some (2, ''second'', 2)"
proof -
  have h1: "resolveRepoFile firstHit = Some ''file:///repo/src/x.js''"
    by (simp add: resolveRepoFile_def)
  have h2: "resolveRepoFile secondHit = Some ''file:///repo/src/x.js''"
    by (simp add: resolveRepoFile_def)
  have l1: "zeroBasedLine firstHit = 9" by code_simp
  have l2: "zeroBasedLine secondHit = 9" by code_simp
  have h3: "zeroBasedLine secondHit = zeroBasedLine firstHit" by (simp add: l1 l2)
  have free: "lookupLine (emptyStore 10) ''file:///repo/src/x.js'' 9 = None"
    by (simp add: lookupLine_def emptyStore_def)
  note inst = line_state_occurrence_count [OF h1 h2 h3, of "emptyStore 10"
      inlineDefaults clockText noFallback]
  have a: "lookupLine (updateInlineForEntry resolveRepoFile secondHit
                    (updateInlineForEntry resolveRepoFile firstHit (emptyStore 10)))
         ''file:///repo/src/x.js'' 9 = Some \<lparr> entry = secondHit, count = 2 \<rparr>"
    using inst unfolding l1 free by simp
  have single: "formatInlineText inlineDefaults clockText noFallback secondHit 1 = '' second''"
    by code_simp
  have b: "formatInlineText inlineDefaults clockText noFallback secondHit 2 = '' second (+1)''"
    using inst unfolding single by simp
  have c: "map_option (\<lambda>d. (e_id (entry d), e_text (entry d), count d))
         (lookupLine (snd (runOps resolveRepoFile sameLineEvents (emptyStore 10)))
            ''file:///repo/src/x.js'' 9) = Some (2, ''second'', 2)"
    by code_simp
  show ?thesis using h1 h2 h3 a b c by blast
qed

section \<open>The serializer: cycles, sharing, truncation\<close>

text \<open>The set only grows: nothing is ever removed from \<open>seen\<close>.\<close>

lemma seen_grows:
  "seen \<subseteq> snd (serializeValue h opts v depth seen)"
  "seen \<subseteq> snd (serializeItems h opts vs d seen arr)"
  "seen \<subseteq> snd (serializeProps h opts ps d seen obj)"
proof (induction h opts v depth seen and h opts vs d seen arr and h opts ps d seen obj
       rule: serializeValue_serializeItems_serializeProps.induct)
  case (12 h opts a depth seen)
  show ?case
  proof (cases "a \<in> seen \<or> maxDepth opts \<le> depth")
    case True
    then show ?thesis by (auto split: jsobj.splits)
  next
    case False
    then have na: "a \<notin> seen" and nd: "\<not> maxDepth opts \<le> depth" by auto
    show ?thesis
    proof (cases "h a")
      case (JArray vs)
      have "insert a seen \<subseteq> snd (serializeItems h opts (take (min (length vs) (maxArray opts)) vs) (depth + 1) (insert a seen) [])"
        using "12.IH"(1) [OF na nd JArray refl] .
      then show ?thesis using na nd JArray by (auto simp: Let_def split: prod.splits)
    next
      case (JObject ps)
      have "insert a seen \<subseteq> snd (serializeProps h opts (take (min (length ps) (maxProps opts)) ps) (depth + 1) (insert a seen) [])"
        using "12.IH"(2) [OF na nd JObject refl] .
      then show ?thesis using na nd JObject by (auto simp: Let_def split: prod.splits)
    qed
  qed
next
  case (14 h opts v vs d seen arr)
  obtain r seen1 where r: "serializeValue h opts v d seen = (r, seen1)" by (cases "serializeValue h opts v d seen")
  have a: "seen \<subseteq> seen1" using "14.IH"(1) r by simp
  have b: "seen1 \<subseteq> snd (serializeItems h opts vs d seen1 (arr @ [r]))"
    using "14.IH"(2) [OF r [symmetric]] .
  show ?case using a b r by auto
next
  case (16 h opts key v ps d seen obj)
  obtain r seen1 where r: "serializeValue h opts v d seen = (r, seen1)" by (cases "serializeValue h opts v d seen")
  have a: "seen \<subseteq> seen1" using "16.IH"(1) r by simp
  have b: "seen1 \<subseteq> snd (serializeProps h opts ps d seen1 (AList.update key r obj))"
    using "16.IH"(2) [OF r [symmetric]] .
  show ?case using a b r by auto
qed simp_all

text \<open>The loops run their list from left to right, handing the set along.\<close>

lemma serializeItems_append:
  "serializeItems h opts (xs @ ys) d seen arr =
     (case serializeItems h opts xs d seen arr of (arr', seen') \<Rightarrow> serializeItems h opts ys d seen' arr')"
  by (induction xs arbitrary: seen arr) (auto split: prod.splits)

lemma serializeProps_append:
  "serializeProps h opts (xs @ ys) d seen obj =
     (case serializeProps h opts xs d seen obj of
        (obj', seen') \<Rightarrow> serializeProps h opts ys d seen' obj')"
  by (induction xs arbitrary: seen obj) (auto split: prod.splits)

lemma serializeItems_acc:
  "fst (serializeItems h opts vs d seen arr) = arr @ fst (serializeItems h opts vs d seen [])
   \<and> snd (serializeItems h opts vs d seen arr) = snd (serializeItems h opts vs d seen [])"
proof (induction vs arbitrary: seen arr)
  case Nil
  show ?case by simp
next
  case (Cons v vs)
  obtain r seen1 where r: "serializeValue h opts v d seen = (r, seen1)"
    by (cases "serializeValue h opts v d seen")
  show ?case
    using Cons.IH [of seen1 "arr @ [r]"] Cons.IH [of seen1 "[r]"] by (simp add: r)
qed

lemma length_serializeItems:
  "length (fst (serializeItems h opts vs d seen arr)) = length arr + length vs"
  by (induction vs arbitrary: seen arr) (auto split: prod.splits)

lemma serializeItems_nth:
  assumes "i < length vs"
  shows "fst (serializeItems h opts vs d seen []) ! i =
           fst (serializeValue h opts (vs ! i) d (snd (serializeItems h opts (take i vs) d seen [])))"
proof -
  have vs: "vs = take i vs @ (vs ! i # drop (Suc i) vs)"
    using assms by (simp add: id_take_nth_drop)
  obtain arr1 seen1 where p: "serializeItems h opts (take i vs) d seen [] = (arr1, seen1)"
    by (cases "serializeItems h opts (take i vs) d seen []")
  have len: "length arr1 = i"
    using length_serializeItems [of h opts "take i vs" d seen "[]"] assms by (simp add: p)
  obtain r seen2 where r: "serializeValue h opts (vs ! i) d seen1 = (r, seen2)"
    by (cases "serializeValue h opts (vs ! i) d seen1")
  have "serializeItems h opts vs d seen [] =
          serializeItems h opts (drop (Suc i) vs) d seen2 (arr1 @ [r])"
    by (subst vs, subst serializeItems_append) (simp add: p r)
  then have "fst (serializeItems h opts vs d seen []) =
          (arr1 @ [r]) @ fst (serializeItems h opts (drop (Suc i) vs) d seen2 [])"
    using serializeItems_acc [of h opts "drop (Suc i) vs" d seen2 "arr1 @ [r]"] by simp
  then have "fst (serializeItems h opts vs d seen []) ! i = r"
    using len by (simp add: nth_append)
  then show ?thesis by (simp add: p r)
qed

text \<open>An object that was descended into is still in the set when its call returns.\<close>

lemma serializeValue_stays_seen:
  "a \<notin> seen \<Longrightarrow> depth < maxDepth opts \<Longrightarrow> a \<in> snd (serializeValue h opts (VRef a) depth seen)"
proof (cases "h a")
  case (JArray vs)
  assume "a \<notin> seen" "depth < maxDepth opts"
  moreover have "insert a seen \<subseteq> snd (serializeItems h opts (take (min (length vs) (maxArray opts)) vs) (depth + 1) (insert a seen) [])"
    by (rule seen_grows(2))
  ultimately show ?thesis using JArray by (auto simp: Let_def split: prod.splits)
next
  case (JObject ps)
  assume "a \<notin> seen" "depth < maxDepth opts"
  moreover have "insert a seen \<subseteq> snd (serializeProps h opts (take (min (length ps) (maxProps opts)) ps) (depth + 1) (insert a seen) [])"
    by (rule seen_grows(3))
  ultimately show ?thesis using JObject by (auto simp: Let_def split: prod.splits)
qed













text \<open>
  Claim C8, as amended. A string longer than \<open>maxStringLength\<close> serializes to its
  first \<open>maxStringLength\<close> characters followed by three dots. An array longer than
  \<open>maxArray\<close> that is not yet in \<open>seen\<close> and is met above the depth limit serializes
  to the serializations of its first \<open>maxArray\<close> elements, in order, followed by one
  marker giving the number of elements left out. An array already in \<open>seen\<close> comes out
  as the cycle marker, at any depth; an array not in \<open>seen\<close> and at the depth limit or
  below comes out as the shallow marker with its length.
\<close>

theorem serializeValue_truncation:
  "(maxStringLength opts < length s \<longrightarrow>
      serializeValue h opts (VStr s) depth seen = (SStr (take (maxStringLength opts) s @ ''...''), seen))
   \<and> (h a = JArray vs \<and> maxArray opts < length vs \<and> a \<notin> seen \<and> depth < maxDepth opts \<longrightarrow>
      (\<exists>items seen'.
         serializeItems h opts (take (maxArray opts) vs) (depth + 1) (insert a seen) [] = (items, seen')
         \<and> length items = maxArray opts
         \<and> (\<forall>i < maxArray opts. items ! i =
               fst (serializeValue h opts (vs ! i) (depth + 1)
                      (snd (serializeItems h opts (take i vs) (depth + 1) (insert a seen) []))))
         \<and> serializeValue h opts (VRef a) depth seen =
             (SArr (items @ [SStr (''... ('' @ showNat (length vs - maxArray opts) @ '' more)'')]), seen')))
   \<and> (a \<in> seen \<longrightarrow>
      serializeValue h opts (VRef a) depth seen = (SStr ''[Circular]'', seen))
   \<and> (h a = JArray vs \<and> a \<notin> seen \<and> maxDepth opts \<le> depth \<longrightarrow>
      serializeValue h opts (VRef a) depth seen =
        (SStr (''[Array('' @ showNat (length vs) @ '')]''), seen))"
proof -
  have 1: "maxStringLength opts < length s \<longrightarrow>
      serializeValue h opts (VStr s) depth seen = (SStr (take (maxStringLength opts) s @ ''...''), seen)"
    by simp
  have 2: "h a = JArray vs \<and> maxArray opts < length vs \<and> a \<notin> seen \<and> depth < maxDepth opts \<longrightarrow>
      (\<exists>items seen'.
         serializeItems h opts (take (maxArray opts) vs) (depth + 1) (insert a seen) [] = (items, seen')
         \<and> length items = maxArray opts
         \<and> (\<forall>i < maxArray opts. items ! i =
               fst (serializeValue h opts (vs ! i) (depth + 1)
                      (snd (serializeItems h opts (take i vs) (depth + 1) (insert a seen) []))))
         \<and> serializeValue h opts (VRef a) depth seen =
             (SArr (items @ [SStr (''... ('' @ showNat (length vs - maxArray opts) @ '' more)'')]), seen'))"
  proof
    assume asm: "h a = JArray vs \<and> maxArray opts < length vs \<and> a \<notin> seen \<and> depth < maxDepth opts"
    let ?m = "maxArray opts"
    obtain items seen' where it:
      "serializeItems h opts (take ?m vs) (Suc depth) (insert a seen) [] = (items, seen')"
      by (cases "serializeItems h opts (take ?m vs) (Suc depth) (insert a seen) []")
    have "length (fst (serializeItems h opts (take ?m vs) (Suc depth) (insert a seen) []))
            = length ([] :: sval list) + length (take ?m vs)"
      by (rule length_serializeItems)
    then have len: "length items = ?m"
      unfolding it using asm by simp
    have nth: "\<forall>i < ?m. items ! i =
               fst (serializeValue h opts (vs ! i) (Suc depth)
                      (snd (serializeItems h opts (take i vs) (Suc depth) (insert a seen) [])))"
    proof (intro allI impI)
      fix i assume i: "i < ?m"
      then have "i < length (take ?m vs)" using asm by simp
      then have "fst (serializeItems h opts (take ?m vs) (Suc depth) (insert a seen) []) ! i =
           fst (serializeValue h opts (take ?m vs ! i) (Suc depth)
                  (snd (serializeItems h opts (take i (take ?m vs)) (Suc depth) (insert a seen) [])))"
        by (rule serializeItems_nth)
      then show "items ! i = fst (serializeValue h opts (vs ! i) (Suc depth)
                      (snd (serializeItems h opts (take i vs) (Suc depth) (insert a seen) [])))"
        unfolding it using i by (simp add: min_def)
    qed
    have min: "min (length vs) ?m = ?m" using asm by simp
    have res: "serializeValue h opts (VRef a) depth seen =
             (SArr (items @ [SStr (''... ('' @ showNat (length vs - ?m) @ '' more)'')]), seen')"
      using asm by (simp add: Let_def min it)
    show "\<exists>items seen'.
         serializeItems h opts (take ?m vs) (depth + 1) (insert a seen) [] = (items, seen')
         \<and> length items = ?m
         \<and> (\<forall>i < ?m. items ! i =
               fst (serializeValue h opts (vs ! i) (depth + 1)
                      (snd (serializeItems h opts (take i vs) (depth + 1) (insert a seen) []))))
         \<and> serializeValue h opts (VRef a) depth seen =
             (SArr (items @ [SStr (''... ('' @ showNat (length vs - ?m) @ '' more)'')]), seen')"
      using it len nth res by simp
  qed
  have 3: "a \<in> seen \<longrightarrow>
      serializeValue h opts (VRef a) depth seen = (SStr ''[Circular]'', seen)"
    by simp
  have 4: "h a = JArray vs \<and> a \<notin> seen \<and> maxDepth opts \<le> depth \<longrightarrow>
      serializeValue h opts (VRef a) depth seen =
        (SStr (''[Array('' @ showNat (length vs) @ '')]''), seen)"
    by simp
  show ?thesis using 1 2 3 4 by blast
qed

text \<open>
  As stated for every array, the claim fails: with \<open>maxArray = 1\<close>, an array of two
  elements is replaced by the shallow marker at the depth limit, and by the cycle marker
  when it is already in \<open>seen\<close>.
\<close>

theorem serializeValue_truncation_counterexample:
  "serializeValue pairHeap shortLimits (VRef 0) 4 {} = (SStr ''[Array(2)]'', {})
   \<and> serializeValue pairHeap shortLimits (VRef 0) 1 {0} = (SStr ''[Circular]'', {0})"
  by (simp add: pairHeap_def emptyHeap_def shortLimits_def showNat.simps digit_def)

text \<open>
  A six-character string with limit 3, and the same array at depth 0, already in
  \<open>seen\<close>, and below the depth limit.
\<close>

theorem serializeValue_truncation_witness:
  "maxStringLength shortLimits < length ''abcdef''
   \<and> serializeValue pairHeap shortLimits (VStr ''abcdef'') 0 {} = (SStr ''abc...'', {})
   \<and> pairHeap 0 = JArray [VNum 1, VNum 2] \<and> maxArray shortLimits < length [VNum 1, VNum 2]
   \<and> (0::nat) \<notin> {} \<and> 0 < maxDepth shortLimits
   \<and> serializeValue pairHeap shortLimits (VRef 0) 0 {} = (SArr [SNum 1, SStr ''... (1 more)''], {0})
   \<and> (0::nat) \<in> {0}
   \<and> serializeValue pairHeap shortLimits (VRef 0) 4 {0} = (SStr ''[Circular]'', {0})
   \<and> maxDepth shortLimits \<le> 5
   \<and> serializeValue pairHeap shortLimits (VRef 0) 5 {} = (SStr ''[Array(2)]'', {})"
proof -
  have h1: "maxStringLength shortLimits < length ''abcdef''" by (simp add: shortLimits_def)
  have h2: "pairHeap 0 = JArray [VNum 1, VNum 2] \<and> maxArray shortLimits < length [VNum 1, VNum 2]
            \<and> (0::nat) \<notin> {} \<and> 0 < maxDepth shortLimits"
    by (simp add: pairHeap_def shortLimits_def)
  note inst = serializeValue_truncation
    [where opts = shortLimits and s = "''abcdef''" and h = pairHeap and depth = 0
       and seen = "{}" and a = 0 and vs = "[VNum 1, VNum 2]"]
  have s: "serializeValue pairHeap shortLimits (VStr ''abcdef'') 0 {} = (SStr ''abc...'', {})"
    using inst h1 by (simp add: shortLimits_def)
  obtain items seen' where
    it: "serializeItems pairHeap shortLimits (take (maxArray shortLimits) [VNum 1, VNum 2]) (0 + 1) (insert 0 {}) [] = (items, seen')"
    and r: "serializeValue pairHeap shortLimits (VRef 0) 0 {} =
             (SArr (items @ [SStr (''... ('' @ showNat (length [VNum 1, VNum 2] - maxArray shortLimits) @ '' more)'')]), seen')"
    using inst h2 by blast
  have "items = [SNum 1] \<and> seen' = {0}"
    using it by (simp add: shortLimits_def)
  then have a: "serializeValue pairHeap shortLimits (VRef 0) 0 {} = (SArr [SNum 1, SStr ''... (1 more)''], {0})"
    using r by (simp add: shortLimits_def showNat.simps digit_def)
  have h3: "(0::nat) \<in> {0}" by simp
  have c: "serializeValue pairHeap shortLimits (VRef 0) 4 {0} = (SStr ''[Circular]'', {0})"
    using serializeValue_truncation
      [where a = 0 and seen = "{0}" and h = pairHeap and opts = shortLimits and depth = 4] h3
    by blast
  have h4: "maxDepth shortLimits \<le> 5" by (simp add: shortLimits_def)
  have "serializeValue pairHeap shortLimits (VRef 0) 5 {} =
          (SStr (''[Array('' @ showNat (length [VNum 1, VNum 2]) @ '')]''), {})"
    using serializeValue_truncation
      [where a = 0 and seen = "{}" and h = pairHeap and opts = shortLimits and depth = 5
         and vs = "[VNum 1, VNum 2]"] h2 h4
    by blast
  then have d: "serializeValue pairHeap shortLimits (VRef 0) 5 {} = (SStr ''[Array(2)]'', {})"
    by (simp add: showNat.simps digit_def)
  show ?thesis using h1 h2 s a h3 c h4 d by blast
qed

text \<open>
  Claim C2. The source adds an object to \<open>seen\<close> and never removes it, so the set
  keeps completed siblings as well as ancestors. In \<open>{x: shared, y: shared}\<close> the
  object under \<open>x\<close> is serialized in full and the same object under \<open>y\<close> comes out
  as the cycle marker, although the input has no cycle; both objects are still in the set
  when the call returns.
\<close>

theorem serializeValue_shared_sibling:
  "serializeValue sharedHeap DEFAULTS (VRef 0) 0 {} =
     (SObj [(''x'', SObj [(''v'', SNum 1)]), (''y'', SStr ''[Circular]'')], {0, 1})"
  by (simp add: sharedHeap_def emptyHeap_def DEFAULTS_def insert_commute)

section \<open>The transport client: stopping and reconnecting\<close>

lemma openClient_reached: "exec [Start, SockOpen 0] initial = Some openClient"
  by (simp add: initial_def openClient_def start_def install_def connect_def onOpen_def
        flushQueue.simps send_def)

text \<open>
  Claim C3. \<open>stop\<close> closes the socket and forgets it, but the socket's \<open>close\<close>
  handler stays registered: when the close event arrives it arms a reconnect timer, and
  when the timer fires no socket is held, so a second socket is constructed, with no
  \<open>start\<close> in between.
\<close>

theorem stop_then_close_reconnects:
  "exec [Start, SockOpen 0, Stop] initial =
     Some (openClient\<lparr>ws := None, sockets := [CLOSING]\<rparr>)
   \<and> exec [Start, SockOpen 0, Stop, SockClose 0, TimerFire] initial =
     Some (openClient\<lparr>ws := Some 1, connected := False, sockets := [CLOSED, CONNECTING]\<rparr>)
   \<and> attempts (openClient\<lparr>ws := None, sockets := [CLOSING]\<rparr>) = 1
   \<and> attempts (openClient\<lparr>ws := Some 1, connected := False, sockets := [CLOSED, CONNECTING]\<rparr>) = 2"
  by (simp add: initial_def openClient_def start_def install_def connect_def onOpen_def
        flushQueue.simps send_def stop_def closeSocket_def onClose_def retryConnect_def
        timerFire_def attempts_def)



















section \<open>Capture points: what reaches the caller\<close>

text \<open>
  Claim C1, as amended. Network calls: an exception thrown by the original \<open>fetch\<close>,
  or by the original \<open>open\<close> or \<open>send\<close> of a request, reaches the caller unchanged;
  a rejection of the original \<open>fetch\<close> reaches the caller unchanged when network
  capture is off, and when it is on provided the error event can be built. Console
  methods: an exception thrown by the original method is caught and dropped, and the
  wrapper goes on exactly as if there were no original method: with capture off it
  returns, and with capture on it returns and sends the event provided the event can be
  built.
\<close>

theorem capture_point_failures:
  "patchedConsole captureConsole original buildPayload methodName args s
     = patchedConsole captureConsole None buildPayload methodName args s
   \<and> patchedConsole False original buildPayload methodName args s = (Returned, s)
   \<and> (buildPayload methodName args = Inr m \<longrightarrow>
        patchedConsole True original buildPayload methodName args s = (Returned, send (Msg m) s))
   \<and> (originalFetch input = SyncThrow err \<longrightarrow>
        patchedFetch networkEnabled originalFetch buildOk buildErr input s = (SyncThrow err, s))
   \<and> (originalFetch input = Rejected err \<and> buildErr input err = Inr m' \<longrightarrow>
        patchedFetch True originalFetch buildOk buildErr input s
          = (Rejected err, send (Msg m') s))
   \<and> patchedFetch False originalFetch buildOk buildErr input s = (originalFetch input, s)
   \<and> fst (patchedXhrOpen originalOpen this meth url) =
        originalOpen (snd (patchedXhrOpen originalOpen this meth url)) meth url
   \<and> fst (patchedXhrSend networkEnabled originalSend this body) =
        originalSend (snd (patchedXhrSend networkEnabled originalSend this body)) body"
proof -
  have 1: "patchedConsole captureConsole original buildPayload methodName args s
     = patchedConsole captureConsole None buildPayload methodName args s"
    by (simp add: patchedConsole_def split: option.splits outcome.splits sum.splits)
  have 2: "patchedConsole False original buildPayload methodName args s = (Returned, s)"
    by (simp add: patchedConsole_def split: option.splits outcome.splits)
  have 3: "buildPayload methodName args = Inr m \<longrightarrow>
        patchedConsole True original buildPayload methodName args s = (Returned, send (Msg m) s)"
    by (simp add: patchedConsole_def split: option.splits outcome.splits)
  have 4: "originalFetch input = SyncThrow err \<longrightarrow>
        patchedFetch networkEnabled originalFetch buildOk buildErr input s = (SyncThrow err, s)"
    by (simp add: patchedFetch_def)
  have 5: "originalFetch input = Rejected err \<and> buildErr input err = Inr m' \<longrightarrow>
        patchedFetch True originalFetch buildOk buildErr input s
          = (Rejected err, send (Msg m') s)"
    by (simp add: patchedFetch_def fetchCatch_def)
  have 6: "patchedFetch False originalFetch buildOk buildErr input s = (originalFetch input, s)"
    by (simp add: patchedFetch_def)
  have 7: "fst (patchedXhrOpen originalOpen this meth url) =
        originalOpen (snd (patchedXhrOpen originalOpen this meth url)) meth url"
    by (simp add: patchedXhrOpen_def Let_def)
  have 8: "fst (patchedXhrSend networkEnabled originalSend this body) =
        originalSend (snd (patchedXhrSend networkEnabled originalSend this body)) body"
    by (simp add: patchedXhrSend_def Let_def)
  show ?thesis using 1 2 3 4 5 6 7 8 by blast
qed

text \<open>
  The original \<open>console.log\<close> throws: its wrapper returns and the event is queued, so
  the exception does not reach the caller. The original \<open>fetch\<close> rejects and building
  the error event throws: the caller gets the second exception, not the original one.
\<close>

theorem console_swallows_counterexample:
  "throwingLog [''x''] = Threw ''boom''
   \<and> patchedConsole True (Some throwingLog) consolePayload ''log'' [''x''] initial =
       (Returned, initial\<lparr>queue := [Msg (''log'', [''x''])]\<rparr>)
   \<and> rejectingFetch ''/api'' = Rejected ''down''
   \<and> patchedFetch True rejectingFetch networkPayload brokenPayload ''/api'' initial =
       (Rejected ''RangeError'', initial)"
  by (simp add: patchedConsole_def throwingLog_def consolePayload_def send_def initial_def
        patchedFetch_def fetchCatch_def rejectingFetch_def brokenPayload_def)

text \<open>
  A console method that throws, a \<open>fetch\<close> that throws and one that rejects, with
  builders that succeed.
\<close>

theorem capture_point_failures_witness:
  "consolePayload ''log'' [''x''] = Inr (''log'', [''x''])
   \<and> patchedConsole True (Some throwingLog) consolePayload ''log'' [''x''] initial
       = (Returned, send (Msg (''log'', [''x''])) initial)
   \<and> throwingFetch ''/api'' = SyncThrow ''bad url''
   \<and> patchedFetch True throwingFetch networkPayload networkPayload ''/api'' initial
       = (SyncThrow ''bad url'', initial)
   \<and> rejectingFetch ''/api'' = Rejected ''down''
   \<and> networkPayload ''/api'' ''down'' = Inr (''network'', [''/api'', ''down''])
   \<and> patchedFetch True rejectingFetch networkPayload networkPayload ''/api'' initial
       = (Rejected ''down'', send (Msg (''network'', [''/api'', ''down''])) initial)"
proof -
  have h1: "consolePayload ''log'' [''x''] = Inr (''log'', [''x''])"
    by (simp add: consolePayload_def)
  have h2: "throwingFetch ''/api'' = SyncThrow ''bad url''"
    by (simp add: throwingFetch_def)
  have h3: "rejectingFetch ''/api'' = Rejected ''down''"
    by (simp add: rejectingFetch_def)
  have h4: "networkPayload ''/api'' ''down'' = Inr (''network'', [''/api'', ''down''])"
    by (simp add: networkPayload_def)
  note console = capture_point_failures
    [where buildPayload = consolePayload and methodName = "''log''" and args = "[''x'']"
       and m = "(''log'', [''x''])" and original = "Some throwingLog" and s = initial,
     THEN conjunct2, THEN conjunct2, THEN conjunct1]
  have a: "patchedConsole True (Some throwingLog) consolePayload ''log'' [''x''] initial
       = (Returned, send (Msg (''log'', [''x''])) initial)"
    using h1 by (rule console [THEN mp])
  note thrown = capture_point_failures
    [where originalFetch = throwingFetch and input = "''/api''" and err = "''bad url''"
       and networkEnabled = True and buildOk = networkPayload and buildErr = networkPayload
       and s = initial,
     THEN conjunct2, THEN conjunct2, THEN conjunct2, THEN conjunct1]
  have b: "patchedFetch True throwingFetch networkPayload networkPayload ''/api'' initial
       = (SyncThrow ''bad url'', initial)"
    using h2 by (rule thrown [THEN mp])
  note rejected = capture_point_failures
    [where originalFetch = rejectingFetch and input = "''/api''" and err = "''down''"
       and buildOk = networkPayload and buildErr = networkPayload
       and m' = "(''network'', [''/api'', ''down''])" and s = initial,
     THEN conjunct2, THEN conjunct2, THEN conjunct2, THEN conjunct2, THEN conjunct1]
  have c: "patchedFetch True rejectingFetch networkPayload networkPayload ''/api'' initial
       = (Rejected ''down'', send (Msg (''network'', [''/api'', ''down''])) initial)"
    using conjI [OF h3 h4] by (rule rejected [THEN mp])
  show ?thesis by (intro conjI; fact)
qed

end
